theory Spec2Isabelle
  imports Main "HOL-Library.Multiset"
begin

section \<open>Exceptions\<close>

text \<open>
  A Python exception is a value: its class, its message, and the exception it was raised
  \<open>from\<close> (its cause), when there is one.
\<close>

datatype exc_kind =
    InvalidTokenCountError | BlockNotFoundError | ValueError | TypeError | IndexError | OSError
  | RuntimeError | OverflowError | TokenizationError | RefreshError | TimeoutError
  | Exception

datatype exc = Exc (kind: exc_kind) (message: string) (cause: "exc option")

section \<open>GlobalTokenCounter (services/global_token_counter.py)\<close>

text \<open>
  The block table is a Python dict, which keeps insertion order: an association list with
  at most one entry per key. Assigning to a present key keeps its position, assigning to an
  absent one appends, \<open>del\<close> removes the entry.
\<close>

record TokenBlock =
  block_id :: string
  token_count :: int

fun dict_set :: "'k \<Rightarrow> 'v \<Rightarrow> ('k \<times> 'v) list \<Rightarrow> ('k \<times> 'v) list" where
  "dict_set k v [] = [(k, v)]"
| "dict_set k v ((k', v') # d) = (if k' = k then (k, v) # d else (k', v') # dict_set k v d)"

fun dict_del :: "'k \<Rightarrow> ('k \<times> 'v) list \<Rightarrow> ('k \<times> 'v) list" where
  "dict_del k [] = []"
| "dict_del k ((k', v') # d) = (if k' = k then d else (k', v') # dict_del k d)"

definition dict_in :: "'k \<Rightarrow> ('k \<times> 'v) list \<Rightarrow> bool" where
  "dict_in k d = (map_of d k \<noteq> None)"

text \<open>
  The counter: the block table, the running total, the registered listeners (each named by
  a number) and, as the observable effect of calling a listener, the log of the calls made so
  far: which listener, with which total. A listener that raises is caught and reported by
  every caller below, so the call is logged and nothing else changes. The error notification
  service the counter reports to is a separate object and is left out; so are the
  \<open>_batch_updates\<close> fields, which no method reads.
\<close>

record GlobalTokenCounter =
  blocks :: "(string \<times> TokenBlock) list"
  total_tokens :: int
  listeners :: "nat list"
  listener_calls :: "(nat \<times> int) list"

definition new_counter :: GlobalTokenCounter where
  "new_counter = \<lparr>blocks = [], total_tokens = 0, listeners = [], listener_calls = []\<rparr>"

text \<open>\<open>add_listener\<close>: the listeners are the keys of a dictionary, so adding one twice keeps one.\<close>

definition add_listener :: "nat \<Rightarrow> GlobalTokenCounter \<Rightarrow> GlobalTokenCounter" where
  "add_listener cb s =
     (if cb \<in> set (listeners s) then s else s\<lparr>listeners := listeners s @ [cb]\<rparr>)"

text \<open>\<open>sum(block.token_count for block in self._blocks.values())\<close>\<close>

definition sum_blocks :: "(string \<times> TokenBlock) list \<Rightarrow> int" where
  "sum_blocks d = sum_list (map (\<lambda>kv. token_count (snd kv)) d)"

text \<open>\<open>_notify_listeners\<close>: every listener is called with the current total.\<close>

definition notify_listeners :: "GlobalTokenCounter \<Rightarrow> GlobalTokenCounter" where
  "notify_listeners s =
     s\<lparr>listener_calls := listener_calls s @ map (\<lambda>cb. (cb, total_tokens s)) (listeners s)\<rparr>"

text \<open>
  Each mutating method returns \<open>Inl e\<close> when it raises \<open>e\<close> and \<open>Inr s'\<close> with the new state
  when it returns. Every raise below happens before the first write, so a call that raises
  leaves the counter as it was.
\<close>

definition update_block :: "string \<Rightarrow> int \<Rightarrow> GlobalTokenCounter \<Rightarrow> exc + GlobalTokenCounter" where
  "update_block bid cnt s =
     (if cnt < 0 then Inl (Exc InvalidTokenCountError ''Token count cannot be negative'' None)
      else
        let bs = (if cnt = 0
                  then (if dict_in bid (blocks s) then dict_del bid (blocks s) else blocks s)
                  else dict_set bid \<lparr>block_id = bid, token_count = cnt\<rparr> (blocks s));
            s1 = s\<lparr>blocks := bs, total_tokens := sum_blocks bs\<rparr>
        in Inr (notify_listeners s1))"

text \<open>
  One pass of the loop of \<open>update_blocks_batch\<close>: an absent block is created with count 0,
  then the count of the block under that key is assigned.
\<close>

definition set_token_count :: "string \<Rightarrow> int \<Rightarrow> (string \<times> TokenBlock) list \<Rightarrow> (string \<times> TokenBlock) list" where
  "set_token_count bid cnt d =
     map (\<lambda>kv. if fst kv = bid then (fst kv, (snd kv)\<lparr>token_count := cnt\<rparr>) else kv) d"

definition batch_apply_one :: "(string \<times> TokenBlock) list \<Rightarrow> string \<times> int \<Rightarrow> (string \<times> TokenBlock) list" where
  "batch_apply_one d u =
     (let d1 = (if \<not> dict_in (fst u) d
                then dict_set (fst u) \<lparr>block_id = fst u, token_count = 0\<rparr> d else d)
      in set_token_count (fst u) (snd u) d1)"

text \<open>
  \<open>update_blocks_batch\<close>. The updates are a dict from block id to count, given as the list of
  its items. The message of the ValueError ends with the rendering of the offending entries,
  which is left out.
\<close>

definition update_blocks_batch :: "(string \<times> int) list \<Rightarrow> GlobalTokenCounter \<Rightarrow> exc + GlobalTokenCounter" where
  "update_blocks_batch updates s =
     (if updates = [] then Inr s
      else if filter (\<lambda>u. snd u < 0) updates \<noteq> []
      then Inl (Exc ValueError ''Invalid token counts in batch update'' None)
      else
        let bs = foldl batch_apply_one (blocks s) updates
        in Inr (s\<lparr>blocks := bs, total_tokens := sum_blocks bs\<rparr>))"

definition remove_block :: "string \<Rightarrow> GlobalTokenCounter \<Rightarrow> exc + GlobalTokenCounter" where
  "remove_block bid s =
     (case map_of (blocks s) bid of
        None \<Rightarrow> Inl (Exc BlockNotFoundError (''Block '' @ bid @ '' not found'') None)
      | Some b \<Rightarrow>
          Inr (notify_listeners
                 (s\<lparr>total_tokens := total_tokens s - token_count b,
                    blocks := dict_del bid (blocks s)\<rparr>)))"

definition set_total_tokens :: "int \<Rightarrow> GlobalTokenCounter \<Rightarrow> exc + GlobalTokenCounter" where
  "set_total_tokens t s =
     (if t < 0 then Inl (Exc InvalidTokenCountError ''Total token count cannot be negative'' None)
      else Inr (s\<lparr>total_tokens := t,
                   listener_calls := listener_calls s @ map (\<lambda>cb. (cb, t)) (listeners s)\<rparr>))"

definition reset :: "GlobalTokenCounter \<Rightarrow> GlobalTokenCounter" where
  "reset s =
     s\<lparr>blocks := [], total_tokens := 0,
       listener_calls := listener_calls s @ map (\<lambda>cb. (cb, 0)) (listeners s)\<rparr>"

text \<open>
  \<open>get_block_count\<close>: the lookup sits in a \<open>try\<close> whose handler returns 0 for any exception,
  so the method itself has no raising branch.
\<close>

definition lookup_block_count :: "GlobalTokenCounter \<Rightarrow> string \<Rightarrow> exc + int" where
  "lookup_block_count s bid =
     (case map_of (blocks s) bid of Some b \<Rightarrow> Inr (token_count b) | None \<Rightarrow> Inr 0)"

definition get_block_count :: "GlobalTokenCounter \<Rightarrow> string \<Rightarrow> exc + int" where
  "get_block_count s bid =
     (case lookup_block_count s bid of Inr c \<Rightarrow> Inr c | Inl e \<Rightarrow> Inr 0)"

text \<open>Calls on the counter, and the state a call leaves behind whether it returns or raises.\<close>

datatype counter_call =
    UpdateBlock string int
  | UpdateBlocksBatch "(string \<times> int) list"
  | RemoveBlock string
  | SetTotalTokens int
  | Reset

fun do_call :: "counter_call \<Rightarrow> GlobalTokenCounter \<Rightarrow> exc + GlobalTokenCounter" where
  "do_call (UpdateBlock bid cnt) s = update_block bid cnt s"
| "do_call (UpdateBlocksBatch us) s = update_blocks_batch us s"
| "do_call (RemoveBlock bid) s = remove_block bid s"
| "do_call (SetTotalTokens t) s = set_total_tokens t s"
| "do_call Reset s = Inr (reset s)"

definition after_call :: "GlobalTokenCounter \<Rightarrow> counter_call \<Rightarrow> GlobalTokenCounter" where
  "after_call s c = (case do_call c s of Inl e \<Rightarrow> s | Inr s' \<Rightarrow> s')"

text \<open>The states after each call of a sequence, in order.\<close>

fun states_after :: "GlobalTokenCounter \<Rightarrow> counter_call list \<Rightarrow> GlobalTokenCounter list" where
  "states_after s [] = []"
| "states_after s (c # cs) = after_call s c # states_after (after_call s c) cs"

fun is_set_total :: "counter_call \<Rightarrow> bool" where
  "is_set_total (SetTotalTokens t) = True"
| "is_set_total c = False"

definition total_is_sum :: "GlobalTokenCounter \<Rightarrow> bool" where
  "total_is_sum s = (total_tokens s = sum_blocks (blocks s))"

section \<open>BackgroundProcessor (services/background_processor.py)\<close>

datatype TaskPriority = HIGH | MEDIUM | LOW

fun priority_value :: "TaskPriority \<Rightarrow> nat" where
  "priority_value HIGH = 0"
| "priority_value MEDIUM = 1"
| "priority_value LOW = 2"

datatype TaskStatus = PENDING | RUNNING | COMPLETED | FAILED

text \<open>
  A task. Its id is the UUID that \<open>uuid4()\<close> returned, a number here. \<open>func\<close> names the
  callable together with the arguments it was submitted with. The three timestamps are left
  out: nothing below reads them, and the tasks waiting in the queue all carry the same ones.
\<close>

record Task =
  task_id :: nat
  func :: nat
  priority :: TaskPriority
  status :: TaskStatus
  result :: "string option"
  error :: "exc option"
  retries :: int
  max_retries :: int

text \<open>
  Tasks are objects that the task table and the queue both refer to, and that a worker
  changes in place: \<open>objs\<close> is the store of the task objects, an address is an index into
  it, the table maps a UUID to an address, and a queue item is the pair of a priority value
  and an address.
\<close>

type_synonym queue_item = "nat \<times> nat"

record BackgroundProcessor =
  max_workers :: nat
  tasks :: "(nat \<times> nat) list"
  queue :: "queue_item list"
  objs :: "Task list"
  running :: bool

definition new_processor :: BackgroundProcessor where
  "new_processor = \<lparr>max_workers = 5, tasks = [], queue = [], objs = [], running = False\<rparr>"

text \<open>
  \<open>asyncio.PriorityQueue\<close> keeps its items in a list ordered by Python's \<open>heapq\<close>, which
  compares items with \<open><\<close>. The items are tuples \<open>(priority.value, task)\<close>: tuples compare
  by their first differing component, so two items of different priority compare by
  priority, two equal items are not less than one another, and two items of the same
  priority holding different tasks compare the tasks. \<open>Task\<close> is a dataclass without
  \<open>order=True\<close>: it has \<open>==\<close> (all fields equal) and no \<open><\<close>, so that comparison raises
  TypeError.
\<close>

definition task_order_error :: exc where
  "task_order_error =
     Exc TypeError
       ([CHR 0x27] @ ''<'' @ [CHR 0x27] @ '' not supported between instances of ''
          @ [CHR 0x27] @ ''Task'' @ [CHR 0x27] @ '' and '' @ [CHR 0x27] @ ''Task'' @ [CHR 0x27])
       None"

definition item_lt :: "Task list \<Rightarrow> queue_item \<Rightarrow> queue_item \<Rightarrow> exc + bool" where
  "item_lt st x y =
     (if fst x \<noteq> fst y then Inr (fst x < fst y)
      else if snd x = snd y \<or> st ! snd x = st ! snd y then Inr False
      else Inl task_order_error)"

text \<open>
  \<open>heapq\<close> of the Python standard library: \<open>heappush\<close> appends the item and sifts it
  towards the root; \<open>heappop\<close> removes the last item, puts it at the root and sifts it down
  to a leaf and back up. The items move by exchanging places, as in CPython's
  implementation, so the list a raised comparison leaves behind is the one below. Each
  function returns the exception raised by a comparison, if any, and the list.
\<close>

definition swap :: "'a list \<Rightarrow> nat \<Rightarrow> nat \<Rightarrow> 'a list" where
  "swap xs i j = xs[i := xs ! j, j := xs ! i]"

function siftdown :: "Task list \<Rightarrow> queue_item list \<Rightarrow> nat \<Rightarrow> nat \<Rightarrow> exc option \<times> queue_item list" where
  "siftdown st heap startpos pos =
     (if pos > startpos then
        (let parentpos = (pos - 1) div 2 in
         case item_lt st (heap ! pos) (heap ! parentpos) of
           Inl e \<Rightarrow> (Some e, heap)
         | Inr lt \<Rightarrow>
             if lt then siftdown st (swap heap pos parentpos) startpos parentpos
             else (None, heap))
      else (None, heap))"
  by pat_completeness auto
termination
  by (relation "measure (\<lambda>(st, heap, startpos, pos). pos)") auto

declare siftdown.simps [simp del]

function siftup_loop :: "Task list \<Rightarrow> queue_item list \<Rightarrow> nat \<Rightarrow> nat \<Rightarrow> exc option \<times> queue_item list \<times> nat" where
  "siftup_loop st heap endpos pos =
     (let childpos = 2 * pos + 1 in
      if childpos < endpos then
        (let rightpos = childpos + 1 in
         case (if rightpos < endpos then item_lt st (heap ! childpos) (heap ! rightpos)
               else Inr True) of
           Inl e \<Rightarrow> (Some e, heap, pos)
         | Inr lt \<Rightarrow>
             (let c = (if lt then childpos else rightpos)
              in siftup_loop st (swap heap pos c) endpos c))
      else (None, heap, pos))"
  by pat_completeness auto
termination
  by (relation "measure (\<lambda>(st, heap, endpos, pos). endpos - pos)") auto

declare siftup_loop.simps [simp del]

definition siftup :: "Task list \<Rightarrow> queue_item list \<Rightarrow> nat \<Rightarrow> exc option \<times> queue_item list" where
  "siftup st heap pos =
     (case siftup_loop st heap (length heap) pos of
        (Some e, heap', pos') \<Rightarrow> (Some e, heap')
      | (None, heap', pos') \<Rightarrow> siftdown st heap' pos pos')"

definition heappush :: "Task list \<Rightarrow> queue_item list \<Rightarrow> queue_item \<Rightarrow> exc option \<times> queue_item list" where
  "heappush st heap item = siftdown st (heap @ [item]) 0 (length heap)"

definition heappop :: "Task list \<Rightarrow> queue_item list \<Rightarrow> (exc + queue_item) \<times> queue_item list" where
  "heappop st heap =
     (if heap = [] then (Inl (Exc IndexError ''index out of range'' None), heap)
      else
        let lastelt = last heap; heap1 = butlast heap in
        if heap1 = [] then (Inr lastelt, heap1)
        else
          let returnitem = heap1 ! 0 in
          case siftup st (heap1[0 := lastelt]) 0 of
            (Some e, heap2) \<Rightarrow> (Inl e, heap2)
          | (None, heap2) \<Rightarrow> (Inr returnitem, heap2))"

text \<open>
  \<open>submit\<close>. The UUID is what \<open>uuid4()\<close> returned, an argument here. The task is stored in
  the table first; then \<open>queue.put\<close> pushes it on the heap, and an exception raised there
  leaves \<open>submit\<close> without a result, with the task in the table.
\<close>

definition new_task :: "nat \<Rightarrow> nat \<Rightarrow> TaskPriority \<Rightarrow> Task" where
  "new_task uuid f prio =
     \<lparr>task_id = uuid, func = f, priority = prio, status = PENDING, result = None,
      error = None, retries = 0, max_retries = 3\<rparr>"

definition submit :: "BackgroundProcessor \<Rightarrow> nat \<Rightarrow> nat \<Rightarrow> TaskPriority \<Rightarrow> (exc + nat) \<times> BackgroundProcessor" where
  "submit s uuid f prio =
     (let addr = length (objs s);
          s1 = s\<lparr>objs := objs s @ [new_task uuid f prio], tasks := dict_set uuid addr (tasks s)\<rparr>
      in case heappush (objs s1) (queue s1) (priority_value prio, addr) of
           (Some e, h) \<Rightarrow> (Inl e, s1\<lparr>queue := h\<rparr>)
         | (None, h) \<Rightarrow> (Inr uuid, s1\<lparr>queue := h\<rparr>))"

definition get_task :: "BackgroundProcessor \<Rightarrow> nat \<Rightarrow> Task option" where
  "get_task s uuid = map_option (\<lambda>a. objs s ! a) (map_of (tasks s) uuid)"

text \<open>
  The inner \<open>while\<close> loop of \<open>_worker\<close>. \<open>outcome n\<close> is what the \<open>n\<close>-th call of the task's
  function does (calls counted from 0): it returns a value or raises. The loop returns the
  exception that leaves it, if any, the task, the number of calls made so far and the delays
  slept so far, in seconds. The delay is \<open>2.0 ** (task.retries - 1)\<close>, a float: a power of two
  below \<open>2 ** 1024\<close> is exact, and from there on Python raises OverflowError.
\<close>

function retry_loop :: "(nat \<Rightarrow> exc + string) \<Rightarrow> Task \<Rightarrow> nat \<Rightarrow> nat list \<Rightarrow> exc option \<times> Task \<times> nat \<times> nat list" where
  "retry_loop outcome t n ds =
     (if retries t < max_retries t then
        (case outcome n of
           Inr v \<Rightarrow> (None, t\<lparr>result := Some v, status := COMPLETED\<rparr>, n + 1, ds)
         | Inl e \<Rightarrow>
             (let t1 = t\<lparr>retries := retries t + 1\<rparr> in
              if retries t1 \<ge> max_retries t1 then (Some e, t1, n + 1, ds)
              else if retries t1 - 1 \<ge> 1024
              then (Some (Exc OverflowError ''(34, Numerical result out of range)'' None), t1, n + 1, ds)
              else retry_loop outcome t1 (n + 1) (ds @ [2 ^ nat (retries t1 - 1)])))
      else (Some (Exc Exception ''Max retries exceeded'' None), t, n, ds))"
  by pat_completeness auto
termination
  by (relation "measure (\<lambda>(outcome, t, n, ds). nat (max_retries t - retries t))") auto

declare retry_loop.simps [simp del]

text \<open>
  What a worker does with the task it has taken from the queue: mark it RUNNING, run the
  loop, and record the exception that left the loop as the task's error, with status FAILED.
\<close>

definition process_task :: "(nat \<Rightarrow> exc + string) \<Rightarrow> Task \<Rightarrow> Task \<times> nat \<times> nat list" where
  "process_task outcome t =
     (case retry_loop outcome (t\<lparr>status := RUNNING\<rparr>) 0 [] of
        (Some e, t1, n, ds) \<Rightarrow> (t1\<lparr>error := Some e, status := FAILED\<rparr>, n, ds)
      | (None, t1, n, ds) \<Rightarrow> (t1, n, ds))"

text \<open>
  One pass of the \<open>while self._running\<close> loop of \<open>_worker\<close>: \<open>queue.get\<close> waits while the
  queue is empty (no pass: \<open>None\<close>); an exception raised by the dequeue is caught and logged
  by the worker; otherwise the task is processed in place. \<open>work f n\<close> is the outcome of the
  \<open>n\<close>-th call of the callable \<open>f\<close>. The pass also returns the number of calls it made and the
  delays it slept. Workers running at the same time each work on a task of their own, so
  their passes are taken one after the other.
\<close>

definition worker_pass :: "(nat \<Rightarrow> nat \<Rightarrow> exc + string) \<Rightarrow> BackgroundProcessor \<Rightarrow> (BackgroundProcessor \<times> nat \<times> nat list) option" where
  "worker_pass work s =
     (if queue s = [] then None
      else case heappop (objs s) (queue s) of
             (Inl e, h) \<Rightarrow> Some (s\<lparr>queue := h\<rparr>, 0, [])
           | (Inr item, h) \<Rightarrow>
               (let a = snd item;
                    (t, n, ds) = process_task (work (func (objs s ! a))) (objs s ! a)
                in Some (s\<lparr>queue := h, objs := (objs s)[a := t]\<rparr>, n, ds)))"


text \<open>Operations on the processor, and the processor after a sequence of them.\<close>

datatype proc_op = Submit nat nat TaskPriority | WorkerPass

fun proc_step :: "(nat \<Rightarrow> nat \<Rightarrow> exc + string) \<Rightarrow> BackgroundProcessor \<Rightarrow> proc_op \<Rightarrow> BackgroundProcessor" where
  "proc_step work s (Submit uuid f prio) = snd (submit s uuid f prio)"
| "proc_step work s WorkerPass = (case worker_pass work s of None \<Rightarrow> s | Some r \<Rightarrow> fst r)"

text \<open>For the examples: callables every call of which raises.\<close>

definition failing_work :: "nat \<Rightarrow> nat \<Rightarrow> exc + string" where
  "failing_work f n = Inl (Exc Exception ''boom'' None)"

section \<open>References (models/reference_models.py, services/reference_service.py)\<close>

datatype ReferenceType = FILE | VARIABLE | API

text \<open>\<open>ReferenceType(value)\<close>: the member with that value; \<open>None\<close> is the ValueError.\<close>

definition parse_reference_type :: "string \<Rightarrow> ReferenceType option" where
  "parse_reference_type v =
     (if v = ''file'' then Some FILE
      else if v = ''variable'' then Some VARIABLE
      else if v = ''api'' then Some API
      else None)"

record AllowedDirectory =
  dir_path :: string
  is_recursive :: bool

text \<open>
  What the services read from outside: the file system (the working directory,
  \<open>Path.resolve\<close> giving the parts of the absolute path or raising, whether a resolved path
  exists, whether \<open>Path(value)\<close> exists, \<open>Path(value).read_text\<close>), the stored variables, the
  API endpoints (for a name: no endpoint, or what \<open>validate_configuration\<close> says, and what
  \<open>get_resource\<close> returns or raises), the tokenizer, and the references the session holds
  for a block, each a pair of a type and a value.
\<close>

record world =
  cwd :: string
  resolve :: "string \<Rightarrow> exc + string list"
  resolved_exists :: "string list \<Rightarrow> bool"
  path_exists :: "string \<Rightarrow> bool"
  read_text :: "string \<Rightarrow> exc + string"
  variables :: "string \<Rightarrow> string option"
  api_valid :: "string \<Rightarrow> bool option"
  api_resource :: "string \<Rightarrow> exc + string"
  token_counter :: "string \<Rightarrow> exc + nat"
  session_refs :: "string \<Rightarrow> (string \<times> string) list"

text \<open>\<open>PurePath.relative_to\<close>: the parts after the base's, \<open>None\<close> for the ValueError.\<close>

definition relative_to :: "string list \<Rightarrow> string list \<Rightarrow> string list option" where
  "relative_to target base =
     (if take (length base) target = base then Some (drop (length base) target) else None)"

definition ensure_default_directory :: "world \<Rightarrow> AllowedDirectory list \<Rightarrow> AllowedDirectory list" where
  "ensure_default_directory w db =
     (if filter (\<lambda>d. dir_path d = cwd w) db = []
      then db @ [\<lparr>dir_path = cwd w, is_recursive = True\<rparr>]
      else db)"

text \<open>
  The loop of \<open>is_path_allowed\<close> over the allowed directories: \<open>Inr True\<close> when it returns
  \<open>(True, None)\<close>, \<open>Inr False\<close> when it ends, \<open>Inl e\<close> when resolving a directory raises.
\<close>

fun dir_allows :: "world \<Rightarrow> string list \<Rightarrow> AllowedDirectory list \<Rightarrow> exc + bool" where
  "dir_allows w target [] = Inr False"
| "dir_allows w target (d # ds) =
     (case resolve w (dir_path d) of
        Inl e \<Rightarrow> Inl e
      | Inr base_path \<Rightarrow>
          (case relative_to target base_path of
             None \<Rightarrow> dir_allows w target ds
           | Some relative \<Rightarrow>
               if is_recursive d \<or> length relative \<le> 1 then Inr True
               else dir_allows w target ds))"

text \<open>
  \<open>AllowedDirectory.is_path_allowed\<close> returns a pair \<open>(is_allowed, error_message)\<close>. Its
  handler catches ValueError and OSError (FileNotFoundError is one); any other exception
  leaves it. The table of allowed directories, with the default directory added, is
  returned too.
\<close>

definition is_path_allowed_body :: "world \<Rightarrow> AllowedDirectory list \<Rightarrow> string \<Rightarrow> exc + bool \<times> string option" where
  "is_path_allowed_body w db1 target_path =
     (case resolve w target_path of
        Inl e \<Rightarrow> Inl e
      | Inr target \<Rightarrow>
          if \<not> resolved_exists w target
          then Inr (False, Some (''Path does not exist: '' @ target_path))
          else if db1 = [] then Inr (False, Some ''No allowed directories configured'')
          else case dir_allows w target db1 of
                 Inl e \<Rightarrow> Inl e
               | Inr True \<Rightarrow> Inr (True, None)
               | Inr False \<Rightarrow>
                   Inr (False, Some (''Path is not within allowed directories: '' @ target_path)))"

definition is_path_allowed :: "world \<Rightarrow> AllowedDirectory list \<Rightarrow> string \<Rightarrow> (exc + bool \<times> string option) \<times> AllowedDirectory list" where
  "is_path_allowed w db target_path =
     (let db1 = ensure_default_directory w db in
      (case is_path_allowed_body w db1 target_path of
         Inl e \<Rightarrow>
           if kind e = ValueError \<or> kind e = OSError
           then Inr (False, Some (''Error checking path: '' @ message e))
           else Inl e
       | Inr r \<Rightarrow> Inr r,
       db1))"

text \<open>
  \<open>validate_reference\<close> assigns to \<open>is_valid\<close> whatever the check returns: a bool for a
  variable or an API reference, the whole pair of \<open>is_path_allowed\<close> for a file reference.
  \<open>if not is_valid\<close> tests Python's truth value, and a pair is true.
\<close>

datatype pyval = PyBool bool | PyTuple bool "string option"

fun truthy :: "pyval \<Rightarrow> bool" where
  "truthy (PyBool b) = b"
| "truthy (PyTuple a b) = True"

definition validate_reference :: "world \<Rightarrow> AllowedDirectory list \<Rightarrow> ReferenceType \<Rightarrow> string \<Rightarrow> (exc + pyval \<times> string option) \<times> AllowedDirectory list" where
  "validate_reference w db reference_type v =
     (case reference_type of
        FILE \<Rightarrow>
          (case is_path_allowed w db v of
             (Inl e, db1) \<Rightarrow>
               (if kind e = OSError \<or> kind e = ValueError \<or> kind e = RuntimeError
                then Inr (PyBool False, Some (message e)) else Inl e, db1)
           | (Inr r, db1) \<Rightarrow>
               (let is_valid = PyTuple (fst r) (snd r)
                in Inr (is_valid,
                        if \<not> truthy is_valid
                        then Some (''Path '' @ [CHR 0x27] @ v @ [CHR 0x27] @ '' is not allowed'')
                        else None),
                db1))
      | VARIABLE \<Rightarrow>
          (case variables w v of
             None \<Rightarrow> (Inr (PyBool False,
                            Some (''Variable '' @ [CHR 0x27] @ v @ [CHR 0x27] @ '' not found'')), db)
           | Some x \<Rightarrow> (Inr (PyBool True, None), db))
      | API \<Rightarrow>
          (case api_valid w v of
             None \<Rightarrow> (Inr (PyBool False,
                            Some (''API endpoint '' @ [CHR 0x27] @ v @ [CHR 0x27] @ '' not found'')), db)
           | Some iv \<Rightarrow>
               if iv then (Inr (PyBool True, None), db)
               else (Inr (PyBool False, Some ''Invalid API configuration''), db)))"

text \<open>
  The content of a reference, for token counting: a pair of the content and an error
  message. \<open>_get_file_content\<close> reads the pair \<open>is_path_allowed\<close> returns as a pair.
\<close>

definition get_file_content :: "world \<Rightarrow> AllowedDirectory list \<Rightarrow> string \<Rightarrow> (exc + string \<times> string option) \<times> AllowedDirectory list" where
  "get_file_content w db v =
     (case is_path_allowed w db v of
        (Inl e, db1) \<Rightarrow> (Inl e, db1)
      | (Inr (is_allowed, err), db1) \<Rightarrow>
          (if \<not> is_allowed then Inr ('''', err)
           else if \<not> path_exists w v then Inr ('''', Some (''File not found: '' @ v))
           else case read_text w v of
                  Inr content \<Rightarrow> Inr (content, None)
                | Inl e \<Rightarrow>
                    if kind e = OSError \<or> kind e = ValueError \<or> kind e = RuntimeError
                    then Inr ('''', Some (''Error getting file content: '' @ message e))
                    else Inl e,
           db1))"

definition get_variable_content :: "world \<Rightarrow> string \<Rightarrow> exc + string \<times> string option" where
  "get_variable_content w v =
     (case variables w v of
        None \<Rightarrow> Inr ('''', Some (''Variable not found: '' @ v))
      | Some x \<Rightarrow> Inr (x, None))"

definition get_api_content :: "world \<Rightarrow> string \<Rightarrow> exc + string \<times> string option" where
  "get_api_content w v =
     (case api_valid w v of
        None \<Rightarrow> Inr ('''', Some (''API endpoint not found: '' @ v))
      | Some iv \<Rightarrow>
          (case api_resource w v of
             Inl e \<Rightarrow> Inl e
           | Inr response \<Rightarrow> Inr (response, None)))"

text \<open>\<open>get_reference_content\<close> turns any exception of the method it calls into an error message.\<close>

definition get_reference_content :: "world \<Rightarrow> AllowedDirectory list \<Rightarrow> ReferenceType \<times> string \<Rightarrow> (string \<times> string option) \<times> AllowedDirectory list" where
  "get_reference_content w db reference =
     (let (r, db1) =
            (case fst reference of
               FILE \<Rightarrow> get_file_content w db (snd reference)
             | VARIABLE \<Rightarrow> (get_variable_content w (snd reference), db)
             | API \<Rightarrow> (get_api_content w (snd reference), db))
      in (case r of
            Inl e \<Rightarrow> ('''', Some (''Error processing reference: '' @ message e))
          | Inr p \<Rightarrow> p,
          db1))"

section \<open>RefreshService (services/refresh_service.py)\<close>

text \<open>
  \<open>re.finditer(r"@\[([^:]+):([^\]]+)\]", content)\<close>. A match at the start of \<open>s\<close>: \<open>@[\<close>, then
  the characters up to the first colon (at least one), the colon, the characters up to the
  first \<open>]\<close> (at least one), and that \<open>]\<close>. Both groups are greedy and each stops only at its
  own delimiter, so there is no other way to match at that position. The result is the two
  groups and the length of the match.
\<close>

definition match_at :: "string \<Rightarrow> (string \<times> string \<times> nat) option" where
  "match_at s =
     (if take 2 s = ''@[''
      then let r0 = drop 2 s;
               g1 = takeWhile (\<lambda>c. c \<noteq> CHR '':'') r0;
               r1 = dropWhile (\<lambda>c. c \<noteq> CHR '':'') r0
           in if g1 = [] \<or> r1 = [] then None
              else let g2 = takeWhile (\<lambda>c. c \<noteq> CHR '']'') (tl r1);
                       r2 = dropWhile (\<lambda>c. c \<noteq> CHR '']'') (tl r1)
                   in if g2 = [] \<or> r2 = [] then None
                      else Some (g1, g2, 2 + length g1 + 1 + length g2 + 1)
      else None)"

text \<open>
  The matches from left to right, none overlapping: \<open>finditer skip s\<close> has \<open>skip\<close> characters
  of the last match still to pass over.
\<close>

fun finditer :: "nat \<Rightarrow> string \<Rightarrow> (string \<times> string) list" where
  "finditer skip [] = []"
| "finditer (Suc skip) (c # cs) = finditer skip cs"
| "finditer 0 (c # cs) =
     (case match_at (c # cs) of
        Some (g1, g2, n) \<Rightarrow> (g1, g2) # finditer (n - 1) cs
      | None \<Rightarrow> finditer 0 cs)"

text \<open>\<open>"@[" in content\<close>\<close>

fun has_reference_mark :: "string \<Rightarrow> bool" where
  "has_reference_mark (a # b # cs) = ((a = CHR ''@'' \<and> b = CHR ''['') \<or> has_reference_mark (b # cs))"
| "has_reference_mark cs = False"

text \<open>\<open>"\\n".join(contents)\<close>\<close>

fun join_lines :: "string list \<Rightarrow> string" where
  "join_lines [] = []"
| "join_lines [x] = x"
| "join_lines (x # y # ys) = x @ [CHR 0x0A] @ join_lines (y # ys)"

text \<open>
  \<open>_process_references\<close>: references of an unknown type are skipped; of the others, the
  contents that came without an error message and are not empty are joined. An error
  message is logged and not kept.
\<close>

fun collect_contents :: "world \<Rightarrow> AllowedDirectory list \<Rightarrow> (ReferenceType \<times> string) list \<Rightarrow> string list \<times> AllowedDirectory list" where
  "collect_contents w db [] = ([], db)"
| "collect_contents w db (r # rs) =
     (let ((content, error), db1) = get_reference_content w db r;
          (contents, db2) = collect_contents w db1 rs
      in (if error \<noteq> None \<and> error \<noteq> Some [] then contents
          else if content \<noteq> [] then content # contents
          else contents,
          db2))"

definition process_references :: "world \<Rightarrow> AllowedDirectory list \<Rightarrow> (string \<times> string) list \<Rightarrow> string \<times> AllowedDirectory list" where
  "process_references w db references =
     (let fence_refs =
            concat (map (\<lambda>r. case parse_reference_type (fst r) of
                                None \<Rightarrow> [] | Some t \<Rightarrow> [(t, snd r)]) references)
      in if fence_refs = [] then ('''', db)
         else let (contents, db1) = collect_contents w db fence_refs
              in (join_lines contents, db1))"

text \<open>\<open>TokenCountingService.count_tokens\<close>: empty content is 0 tokens without asking the tokenizer.\<close>

definition count_tokens :: "world \<Rightarrow> string \<Rightarrow> exc + nat" where
  "count_tokens w content =
     (if content = [] then Inr 0
      else case token_counter w content of
             Inr n \<Rightarrow> Inr n
           | Inl e \<Rightarrow>
               Inl (Exc TokenizationError
                      (''Failed to count tokens: Failed to tokenize content: '' @ message e) None))"

text \<open>The state the refresh service works on: the global counter and the allowed directories.\<close>

record app_state =
  counter :: GlobalTokenCounter
  allowed_dirs :: "AllowedDirectory list"

record block_result =
  br_content :: string
  br_token_count :: int
  br_total_tokens :: int
  br_status :: string

text \<open>\<open>refresh_block\<close>; \<open>content\<close> is \<open>None\<close> or a string.\<close>

definition refresh_block :: "world \<Rightarrow> app_state \<Rightarrow> string \<Rightarrow> string option \<Rightarrow> (exc + block_result) \<times> app_state" where
  "refresh_block w st bid content =
     (let raw = (case content of None \<Rightarrow> [] | Some c \<Rightarrow> c);
          references = (if raw \<noteq> [] \<and> has_reference_mark raw
                        then finditer 0 raw else session_refs w bid);
          (reference_content, db1) =
            (if references \<noteq> [] then process_references w (allowed_dirs st) references
             else ('''', allowed_dirs st));
          content_for_counting = (if reference_content \<noteq> [] then reference_content else raw);
          st1 = st\<lparr>allowed_dirs := db1\<rparr>;
          failed = (\<lambda>e. Inl (Exc RefreshError (''Failed to refresh block '' @ bid) (Some e)))
      in case count_tokens w content_for_counting of
           Inl e \<Rightarrow> (failed e, st1)
         | Inr n \<Rightarrow>
             (case update_block bid (int n) (counter st1) of
                Inl e \<Rightarrow> (failed e, st1)
              | Inr c \<Rightarrow>
                  (Inr \<lparr>br_content = raw, br_token_count = int n,
                        br_total_tokens = total_tokens c, br_status = ''success''\<rparr>,
                   st1\<lparr>counter := c\<rparr>)))"

text \<open>
  \<open>asyncio.gather(*refresh_tasks, return_exceptions=True)\<close>: the refreshes of the blocks, each
  giving its result or the exception it raised. They are run here one after the other in
  the order of the list; none reads what another wrote except the counter's running total.
\<close>

fun gather_refresh :: "world \<Rightarrow> app_state \<Rightarrow> (string \<times> string option) list \<Rightarrow> (exc + block_result) list \<times> app_state" where
  "gather_refresh w st [] = ([], st)"
| "gather_refresh w st (b # bs) =
     (let (r, st1) = refresh_block w st (fst b) (snd b);
          (rs, st2) = gather_refresh w st1 bs
      in (r # rs, st2))"

record refresh_all_result =
  ra_status :: string
  ra_total_tokens :: int
  ra_block_tokens :: "(string \<times> int) list"
  ra_contents :: "(string \<times> string) list"

text \<open>The loop of \<open>refresh_all\<close> over \<open>zip(blocks, results)\<close>.\<close>

fun tally :: "(string \<times> (exc + block_result)) list \<Rightarrow> refresh_all_result \<Rightarrow> refresh_all_result" where
  "tally [] acc = acc"
| "tally ((bid, Inl e) # rs) acc = tally rs acc"
| "tally ((bid, Inr r) # rs) acc =
     tally rs (acc\<lparr>ra_block_tokens := dict_set bid (br_token_count r) (ra_block_tokens acc),
                   ra_contents := dict_set bid (br_content r) (ra_contents acc),
                   ra_total_tokens := ra_total_tokens acc + br_token_count r\<rparr>)"

text \<open>
  \<open>refresh_all\<close>. \<open>contents\<close> is the dict of the blocks' contents (an empty one is as good as
  none). Whether the 30 seconds of \<open>asyncio.wait_for\<close> run out is the environment's doing:
  \<open>timeout = Some k\<close> says they do, after \<open>k\<close> of the refreshes have finished; \<open>None\<close> says all
  finish in time. The \<open>raise\<close> in the handler of the timeout sits inside the outer \<open>try\<close>,
  whose handler catches every Exception and raises its own RefreshError from it.
\<close>

definition refresh_all :: "world \<Rightarrow> app_state \<Rightarrow> string list \<Rightarrow> (string \<times> string) list \<Rightarrow> nat option \<Rightarrow> (exc + refresh_all_result) \<times> app_state" where
  "refresh_all w st block_ids contents timeout =
     (let st0 = st\<lparr>counter := reset (counter st)\<rparr>;
          refresh_tasks = map (\<lambda>bid. (bid, map_of contents bid)) block_ids;
          failed = (\<lambda>e. Inl (Exc RefreshError ''Failed to refresh all blocks'' (Some e)))
      in case timeout of
           Some k \<Rightarrow>
             (failed (Exc RefreshError
                        ''Operation timed out. Please try refreshing blocks individually.'' None),
              snd (gather_refresh w st0 (take k refresh_tasks)))
         | None \<Rightarrow>
             (let (results, st1) = gather_refresh w st0 refresh_tasks;
                  res = tally (zip block_ids results)
                          \<lparr>ra_status = ''success'', ra_total_tokens = 0,
                            ra_block_tokens = [], ra_contents = []\<rparr>
              in case set_total_tokens (ra_total_tokens res) (counter st1) of
                   Inl e \<Rightarrow> (failed e, st1)
                 | Inr c \<Rightarrow> (Inr res, st1\<lparr>counter := c\<rparr>)))"

text \<open>
  An environment to run the examples in: the working directory is \<open>/app\<close>, every path
  exists, no variable and no API endpoint is stored, the session holds no references, and
  the tokenizer counts one token per character.
\<close>

definition example_world :: world where
  "example_world =
     \<lparr>cwd = ''/app'',
      resolve = (\<lambda>p. Inr (if p = ''/app'' then [''/'', ''app'']
                         else if p = ''/etc/passwd'' then [''/'', ''etc'', ''passwd'']
                         else [''/'', ''app'', p])),
      resolved_exists = (\<lambda>p. True),
      path_exists = (\<lambda>p. True),
      read_text = (\<lambda>p. Inr ''text''),
      variables = (\<lambda>v. None),
      api_valid = (\<lambda>v. None),
      api_resource = (\<lambda>v. Inr []),
      token_counter = (\<lambda>s. Inr (length s)),
      session_refs = (\<lambda>b. [])\<rparr>"


section \<open>Properties of the counter\<close>

lemma sum_blocks_dict_del:
  "map_of d k = Some b \<Longrightarrow> sum_blocks (dict_del k d) = sum_blocks d - token_count b"
  by (induction d) (auto simp: sum_blocks_def)

lemma total_is_sum_update_block:
  "update_block bid cnt s = Inr s' \<Longrightarrow> total_is_sum s'"
  by (auto simp: update_block_def total_is_sum_def notify_listeners_def Let_def
           split: if_splits)

lemma total_is_sum_update_blocks_batch:
  "total_is_sum s \<Longrightarrow> update_blocks_batch us s = Inr s' \<Longrightarrow> total_is_sum s'"
  by (auto simp: update_blocks_batch_def total_is_sum_def Let_def split: if_splits)

lemma total_is_sum_remove_block:
  "total_is_sum s \<Longrightarrow> remove_block bid s = Inr s' \<Longrightarrow> total_is_sum s'"
  by (auto simp: remove_block_def total_is_sum_def notify_listeners_def sum_blocks_dict_del
           split: option.splits)

lemma total_is_sum_reset: "total_is_sum (reset s)"
  by (simp add: reset_def total_is_sum_def sum_blocks_def)

lemma total_is_sum_after_call:
  "total_is_sum s \<Longrightarrow> \<not> is_set_total c \<Longrightarrow> total_is_sum (after_call s c)"
  by (cases c)
     (auto simp: after_call_def total_is_sum_reset split: sum.splits
           dest: total_is_sum_update_block total_is_sum_update_blocks_batch
                 total_is_sum_remove_block)

lemma total_is_sum_new_counter: "total_is_sum new_counter"
  by (simp add: new_counter_def total_is_sum_def sum_blocks_def)

text \<open>
  C1. Starting from a counter whose total is the sum of its blocks (a new counter is one),
  after each call of any sequence of \<open>update_block\<close>, \<open>update_blocks_batch\<close>, \<open>remove_block\<close>
  (and \<open>reset\<close>) calls, none of them \<open>set_total_tokens\<close>, the total equals the sum of the
  token counts of the blocks in the table. This holds for every count, so in particular for
  the non-negative ones; a call that raises leaves the counter unchanged.
\<close>

theorem total_is_sum_after_every_call:
  "total_is_sum s \<Longrightarrow> list_all (\<lambda>c. \<not> is_set_total c) cs \<Longrightarrow>
   list_all total_is_sum (states_after s cs)"
  by (induction cs arbitrary: s) (auto simp: total_is_sum_after_call)

theorem total_is_sum_after_every_call_witness:
  "total_is_sum new_counter
   \<and> list_all (\<lambda>c. \<not> is_set_total c)
       [UpdateBlock ''a'' 5, UpdateBlocksBatch [(''b'', 2), (''a'', 7)], RemoveBlock ''b'',
        UpdateBlock ''a'' 0]
   \<and> list_all total_is_sum
       (states_after new_counter
          [UpdateBlock ''a'' 5, UpdateBlocksBatch [(''b'', 2), (''a'', 7)], RemoveBlock ''b'',
           UpdateBlock ''a'' 0])"
proof -
  let ?cs = "[UpdateBlock ''a'' 5, UpdateBlocksBatch [(''b'', 2), (''a'', 7)],
              RemoveBlock ''b'', UpdateBlock ''a'' 0]"
  have h1: "total_is_sum new_counter"
    by (rule total_is_sum_new_counter)
  have h2: "list_all (\<lambda>c. \<not> is_set_total c) ?cs"
    by simp
  from total_is_sum_after_every_call [OF h1 h2] h1 h2 show ?thesis
    by blast
qed

text \<open>
  C10. \<open>get_block_count\<close> returns, for every counter and every block id: the stored count
  when the id is in the table, 0 when it is not. It has no raising outcome.
\<close>

theorem get_block_count_total:
  "get_block_count s bid =
     Inr (case map_of (blocks s) bid of Some b \<Rightarrow> token_count b | None \<Rightarrow> 0)"
  by (simp add: get_block_count_def lookup_block_count_def split: option.splits)


text \<open>
  Every call that returns, other than \<open>update_blocks_batch\<close>, calls each registered listener
  once, in order, with the total it leaves behind.
\<close>

lemma listeners_called_with_new_total:
  "do_call c s = Inr s' \<Longrightarrow> (\<forall>us. c \<noteq> UpdateBlocksBatch us) \<Longrightarrow>
   listener_calls s' = listener_calls s @ map (\<lambda>cb. (cb, total_tokens s')) (listeners s')"
  by (cases c)
     (auto simp: update_block_def remove_block_def set_total_tokens_def reset_def
        notify_listeners_def Let_def split: if_splits option.splits)

text \<open>
  C6. \<open>update_blocks_batch\<close> recomputes the total and returns without calling any listener:
  on a new counter with listener 0 registered, the batch \<open>{"a": 5}\<close> returns, the total is 5,
  and the log of listener calls is still empty. The other four mutating methods notify (the
  lemma above), so the claim fails on this method alone.
\<close>

theorem update_blocks_batch_calls_no_listener:
  "(case update_blocks_batch [(''a'', 5)] (add_listener 0 new_counter) of
      Inl e \<Rightarrow> None
    | Inr s \<Rightarrow> Some (listeners s, total_tokens s, listener_calls s)) = Some ([0], 5, [])"
  by (simp add: update_blocks_batch_def add_listener_def new_counter_def batch_apply_one_def
        set_token_count_def dict_in_def sum_blocks_def)

lemma map_of_dict_del:
  "distinct (map fst d) \<Longrightarrow> map_of (dict_del k d) x = (if x = k then None else map_of d x)"
proof (induction d)
  case Nil
  then show ?case by simp
next
  case (Cons a d)
  obtain k' v' where a: "a = (k', v')" by (cases a)
  from Cons.prems have n: "map_of d k' = None"
    by (simp add: a map_of_eq_None_iff)
  from Cons n show ?case
    by (auto simp: a)
qed

text \<open>
  \<open>update_block\<close> with count 0 removes the block, and \<open>get_block_count\<close> then returns 0.
\<close>

lemma update_block_zero_removes:
  assumes "distinct (map fst (blocks s))" and "update_block bid 0 s = Inr s'"
  shows "map_of (blocks s') bid = None \<and> get_block_count s' bid = Inr 0"
proof -
  have b: "map_of (blocks s') bid = None"
  proof (cases "map_of (blocks s) bid")
    case None
    with assms(2) show ?thesis
      by (auto simp: update_block_def notify_listeners_def Let_def dict_in_def)
  next
    case (Some b)
    with assms show ?thesis
      by (auto simp: update_block_def notify_listeners_def Let_def dict_in_def map_of_dict_del)
  qed
  then show ?thesis
    by (simp add: get_block_count_def lookup_block_count_def)
qed

text \<open>
  C7. \<open>update_blocks_batch\<close> stores a count of 0 as it stores any other: on a new counter,
  the batch \<open>{"a": 0}\<close> returns and leaves block \<open>a\<close> in the table with token count 0.
  \<open>update_block\<close> removes such a block (the lemma above); the batch method has no such case.
\<close>

theorem update_blocks_batch_keeps_zero_block:
  "update_blocks_batch [(''a'', 0)] new_counter =
     Inr (new_counter\<lparr>blocks := [(''a'', \<lparr>block_id = ''a'', token_count = 0\<rparr>)]\<rparr>)"
  by (simp add: update_blocks_batch_def new_counter_def batch_apply_one_def
        set_token_count_def dict_in_def sum_blocks_def)

section \<open>Properties of the processor\<close>

lemma map_of_dict_set: "map_of (dict_set k v d) = (map_of d)(k \<mapsto> v)"
  by (induction d) auto

lemma tasks_submit:
  "tasks (snd (submit s uuid f prio)) = dict_set uuid (length (objs s)) (tasks s)"
  by (simp add: submit_def Let_def split: prod.splits option.splits)

lemma objs_submit:
  "objs (snd (submit s uuid f prio)) = objs s @ [new_task uuid f prio]"
  by (simp add: submit_def Let_def split: prod.splits option.splits)

lemma fst_submit:
  "fst (submit s uuid f prio) = Inr uuid \<or> (\<exists>e. fst (submit s uuid f prio) = Inl e)"
  by (simp add: submit_def Let_def split: prod.splits option.splits)

lemma tasks_worker_pass: "worker_pass work s = Some r \<Longrightarrow> tasks (fst r) = tasks s"
  by (auto simp: worker_pass_def Let_def split: if_splits prod.splits sum.splits)

lemma proc_step_keeps_task:
  "map_of (tasks s) u \<noteq> None \<Longrightarrow> map_of (tasks (proc_step work s c)) u \<noteq> None"
  by (cases c) (auto simp: tasks_submit map_of_dict_set tasks_worker_pass split: option.splits)

lemma run_keeps_task:
  "map_of (tasks s) u \<noteq> None \<Longrightarrow> map_of (tasks (foldl (proc_step work) s cs)) u \<noteq> None"
proof (induction cs arbitrary: s)
  case Nil
  then show ?case by simp
next
  case (Cons c cs)
  from Cons.prems have "map_of (tasks (proc_step work s c)) u \<noteq> None"
    by (rule proc_step_keeps_task)
  then show ?case using Cons.IH by simp
qed

text \<open>
  C9. Whatever \<open>submit\<close> does next, it has stored the task: after the call the table maps the
  UUID to the new task object and is otherwise unchanged, \<open>get_task\<close> on that UUID returns a
  task with status PENDING, no result, no error, \<open>retries = 0\<close> and \<open>max_retries = 3\<close>, and the
  call either returns that UUID or raises. After any further sequence of submissions and
  worker passes, \<open>get_task\<close> on that UUID still finds a task. (The UUID is the one
  \<open>uuid4()\<close> returned; that it is a new one is \<open>uuid4\<close>'s part.)
\<close>

theorem submit_stores_pending_task:
  "submit s uuid f prio = (r, s1) \<Longrightarrow>
     (r = Inr uuid \<or> (\<exists>e. r = Inl e))
   \<and> map_of (tasks s1) = (map_of (tasks s))(uuid \<mapsto> length (objs s))
   \<and> get_task s1 uuid =
       Some \<lparr>task_id = uuid, func = f, priority = prio, status = PENDING, result = None,
             error = None, retries = 0, max_retries = 3\<rparr>
   \<and> get_task (foldl (proc_step work) s1 cs) uuid \<noteq> None"
proof -
  assume a: "submit s uuid f prio = (r, s1)"
  have s1: "s1 = snd (submit s uuid f prio)" and r: "r = fst (submit s uuid f prio)"
    using a by simp_all
  have t: "map_of (tasks s1) = (map_of (tasks s))(uuid \<mapsto> length (objs s))"
    by (simp add: s1 tasks_submit map_of_dict_set)
  have g: "get_task s1 uuid = Some (new_task uuid f prio)"
    by (simp add: get_task_def t) (simp add: s1 objs_submit)
  have "map_of (tasks s1) uuid \<noteq> None"
    by (simp add: t)
  then have k: "get_task (foldl (proc_step work) s1 cs) uuid \<noteq> None"
    using run_keeps_task [of s1 uuid work cs] by (simp add: get_task_def)
  from fst_submit [of s uuid f prio] t g k show ?thesis
    by (simp add: r new_task_def)
qed

theorem submit_stores_pending_task_witness:
  "submit new_processor 7 0 HIGH =
     (Inr 7, \<lparr>max_workers = 5, tasks = [(7, 0)], queue = [(0, 0)],
               objs = [new_task 7 0 HIGH], running = False\<rparr>)
   \<and> get_task \<lparr>max_workers = 5, tasks = [(7, 0)], queue = [(0, 0)],
               objs = [new_task 7 0 HIGH], running = False\<rparr> 7 =
       Some \<lparr>task_id = 7, func = 0, priority = HIGH, status = PENDING, result = None,
             error = None, retries = 0, max_retries = 3\<rparr>
   \<and> get_task
        (foldl (proc_step (\<lambda>f n. Inr ''done''))
           \<lparr>max_workers = 5, tasks = [(7, 0)], queue = [(0, 0)],
             objs = [new_task 7 0 HIGH], running = False\<rparr>
           [WorkerPass, Submit 8 0 LOW]) 7 \<noteq> None"
proof -
  let ?s1 = "\<lparr>max_workers = 5, tasks = [(7, 0)], queue = [(0, 0)],
              objs = [new_task 7 0 HIGH], running = False\<rparr>"
  have h: "submit new_processor 7 0 HIGH = (Inr 7, ?s1)"
    by code_simp
  from submit_stores_pending_task [OF h, of "\<lambda>f n. Inr ''done''" "[WorkerPass, Submit 8 0 LOW]"] h
  show ?thesis by simp
qed

lemma retry_loop_always_fails:
  "0 \<le> retries t \<Longrightarrow> retries t < max_retries t \<Longrightarrow> max_retries t \<le> 1025 \<Longrightarrow>
   retry_loop (\<lambda>n. Inl (errs n)) t n ds =
     (Some (errs (n + nat (max_retries t - retries t) - 1)),
      t\<lparr>retries := max_retries t\<rparr>,
      n + nat (max_retries t - retries t),
      ds @ map (\<lambda>k. 2 ^ k) [nat (retries t) ..< nat (max_retries t) - 1])"
proof (induction "nat (max_retries t - retries t)" arbitrary: t n ds)
  case 0
  then show ?case by simp
next
  case (Suc k)
  let ?t1 = "t\<lparr>retries := retries t + 1\<rparr>"
  show ?case
  proof (cases "max_retries t \<le> retries t + 1")
    case True
    with Suc.prems have m: "max_retries t = retries t + 1" by simp
    show ?thesis
      by (subst retry_loop.simps) (simp add: m Let_def)
  next
    case False
    have k: "k = nat (max_retries ?t1 - retries ?t1)"
      using Suc.hyps(2) by simp
    have ih: "retry_loop (\<lambda>n. Inl (errs n)) ?t1 (Suc n) (ds @ [2 ^ nat (retries t)]) =
        (Some (errs (Suc n + nat (max_retries t - (retries t + 1)) - 1)),
         t\<lparr>retries := max_retries t\<rparr>,
         Suc n + nat (max_retries t - (retries t + 1)),
         (ds @ [2 ^ nat (retries t)]) @
           map (\<lambda>k. 2 ^ k) [nat (retries t + 1) ..< nat (max_retries t) - 1])"
      using Suc.hyps(1) [OF k, of "Suc n" "ds @ [2 ^ nat (retries t)]"] False Suc.prems
      by simp
    have e1: "nat (max_retries t - retries t) = Suc (nat (max_retries t - (retries t + 1)))"
      using False Suc.prems by simp
    have e2: "[nat (retries t) ..< nat (max_retries t) - 1] =
              nat (retries t) # [nat (retries t + 1) ..< nat (max_retries t) - 1]"
      using False Suc.prems by (subst upt_conv_Cons) (simp_all add: nat_add_distrib)
    have step: "retry_loop (\<lambda>n. Inl (errs n)) t n ds =
                retry_loop (\<lambda>n. Inl (errs n)) ?t1 (Suc n) (ds @ [2 ^ nat (retries t)])"
      using False Suc.prems by (subst retry_loop.simps) (simp add: Let_def)
    show ?thesis
      unfolding step ih e1 e2 by simp
  qed
qed

lemma process_task_always_fails:
  assumes "retries t = 0" "0 < max_retries t" "max_retries t \<le> 1025"
  shows "process_task (\<lambda>n. Inl (errs n)) t =
     (t\<lparr>status := FAILED, retries := max_retries t,
        error := Some (errs (nat (max_retries t) - 1))\<rparr>,
      nat (max_retries t),
      map (\<lambda>k. 2 ^ k) [0 ..< nat (max_retries t) - 1])"
  using assms retry_loop_always_fails [of "t\<lparr>status := RUNNING\<rparr>" errs 0 "[]"]
  by (simp add: process_task_def)

lemma length_swap: "length (swap xs i j) = length xs"
  by (simp add: swap_def)

lemma mset_swap_list: "i < length xs \<Longrightarrow> j < length xs \<Longrightarrow> mset (swap xs i j) = mset xs"
  by (simp add: swap_def mset_swap)

lemma mset_siftdown:
  "pos < length heap \<Longrightarrow> siftdown st heap startpos pos = (e, h) \<Longrightarrow> mset h = mset heap"
proof (induction st heap startpos pos arbitrary: e h rule: siftdown.induct)
  case (1 st heap startpos pos)
  let ?pp = "(pos - 1) div 2"
  note eq = siftdown.simps [of st heap startpos pos, unfolded Let_def]
  have p: "?pp < length heap" using "1.prems"(1) by simp
  show ?case
  proof (cases "startpos < pos")
    case False
    with eq have "siftdown st heap startpos pos = (None, heap)" by (simp only: if_False)
    with "1.prems"(2) show ?thesis by simp
  next
    case True
    show ?thesis
    proof (cases "item_lt st (heap ! pos) (heap ! ?pp)")
      case (Inl x)
      with eq True have "siftdown st heap startpos pos = (Some x, heap)"
        by (simp only: if_True sum.case)
      with "1.prems"(2) show ?thesis by simp
    next
      case (Inr lt)
      show ?thesis
      proof (cases lt)
        case False
        with eq True Inr have "siftdown st heap startpos pos = (None, heap)"
          by (simp only: if_True if_False sum.case)
        with "1.prems"(2) show ?thesis by simp
      next
        case lt: True
        with eq True Inr
        have "siftdown st heap startpos pos = siftdown st (swap heap pos ?pp) startpos ?pp"
          by (simp only: if_True sum.case)
        with "1.prems"(2) have r: "siftdown st (swap heap pos ?pp) startpos ?pp = (e, h)"
          by simp
        have "mset h = mset (swap heap pos ?pp)"
          using p by (intro "1.IH" [OF True refl Inr lt _ r]) (simp add: length_swap)
        then show ?thesis using "1.prems"(1) p by (simp add: mset_swap_list)
      qed
    qed
  qed
qed

lemma mset_siftup_loop:
  "pos < length heap \<Longrightarrow> endpos \<le> length heap \<Longrightarrow>
   siftup_loop st heap endpos pos = (e, h, p) \<Longrightarrow> mset h = mset heap \<and> p < length heap"
proof (induction st heap endpos pos arbitrary: e h p rule: siftup_loop.induct)
  case (1 st heap endpos pos)
  let ?cp = "2 * pos + 1"
  let ?cmp = "if ?cp + 1 < endpos then item_lt st (heap ! ?cp) (heap ! (?cp + 1)) else Inr True"
  note eq = siftup_loop.simps [of st heap endpos pos, unfolded Let_def]
  show ?case
  proof (cases "?cp < endpos")
    case False
    with eq have "siftup_loop st heap endpos pos = (None, heap, pos)" by (simp only: if_False)
    with "1.prems" show ?thesis by simp
  next
    case True
    show ?thesis
    proof (cases ?cmp)
      case (Inl x)
      with eq True have "siftup_loop st heap endpos pos = (Some x, heap, pos)"
        by (simp only: if_True sum.case)
      with "1.prems" show ?thesis by simp
    next
      case (Inr lt)
      let ?c = "if lt then ?cp else ?cp + 1"
      have c: "?c < length heap"
        using True Inr "1.prems"(2) by (auto split: if_splits)
      from eq True Inr
      have "siftup_loop st heap endpos pos = siftup_loop st (swap heap pos ?c) endpos ?c"
        by (simp only: if_True sum.case)
      with "1.prems"(3) have r: "siftup_loop st (swap heap pos ?c) endpos ?c = (e, h, p)"
        by simp
      have "mset h = mset (swap heap pos ?c) \<and> p < length (swap heap pos ?c)"
        using c "1.prems"(2)
        by (intro "1.IH" [OF refl True refl Inr refl _ _ r]) (simp_all add: length_swap)
      then show ?thesis using "1.prems"(1) c by (simp add: mset_swap_list length_swap)
    qed
  qed
qed

lemma mset_siftup:
  "pos < length heap \<Longrightarrow> siftup st heap pos = (e, h) \<Longrightarrow> mset h = mset heap"
proof -
  assume a: "pos < length heap" and b: "siftup st heap pos = (e, h)"
  obtain e1 h1 p1 where l: "siftup_loop st heap (length heap) pos = (e1, h1, p1)"
    by (metis prod_cases3)
  from mset_siftup_loop [OF a _ l] have m: "mset h1 = mset heap" and p: "p1 < length heap"
    by simp_all
  from m have "length h1 = length heap" by (rule mset_eq_length)
  with p have p': "p1 < length h1" by simp
  show ?thesis
  proof (cases e1)
    case None
    with b l have "siftdown st h1 pos p1 = (e, h)" by (simp add: siftup_def)
    from mset_siftdown [OF p' this] m show ?thesis by simp
  next
    case (Some x)
    with b l m show ?thesis by (simp add: siftup_def)
  qed
qed

lemma mset_heappop:
  assumes "heappop st heap = (Inr item, h)" "heap \<noteq> []"
  shows "add_mset item (mset h) = mset heap"
proof (cases "butlast heap = []")
  case True
  with assms show ?thesis
    by (cases heap rule: rev_cases) (auto simp: heappop_def Let_def)
next
  case False
  let ?h1 = "butlast heap"
  from assms False obtain e where h: "siftup st (?h1[0 := last heap]) 0 = (e, h)"
    and i: "item = ?h1 ! 0"
    by (auto simp: heappop_def Let_def split: prod.splits option.splits)
  from False have l: "0 < length ?h1" by (simp del: length_butlast)
  have "mset h = mset (?h1[0 := last heap])"
    using l by (intro mset_siftup [OF _ h]) simp
  also have "\<dots> = add_mset (last heap) (mset ?h1 - {#?h1 ! 0#})"
    using l by (simp add: mset_update)
  finally have "add_mset item (mset h) = add_mset (last heap) (mset ?h1)"
    using l by (simp add: i)
  also have "\<dots> = mset (?h1 @ [last heap])" by simp
  also have "\<dots> = mset heap" using assms(2) by simp
  finally show ?thesis .
qed

text \<open>
  C3. A worker takes a task from the queue whose function raises on every call (the
  \<open>n\<close>-th call raises \<open>errs n\<close>), with \<open>retries = 0\<close> and \<open>0 < max_retries \<le> 1025\<close> (3 for every
  task \<open>submit\<close> creates). Then the pass calls the function exactly \<open>max_retries\<close> times in
  all, the first attempt and \<open>max_retries - 1\<close> retries, and the task's counter \<open>retries\<close> ends
  at \<open>max_retries\<close>: it counts the failed calls. Between the calls the pass sleeps 1, 2, 4, ...
  seconds, that is \<open>2 ^ (k - 1)\<close> after the \<open>k\<close>-th failed call, \<open>max_retries - 1\<close> delays in all;
  the task ends with status FAILED and the exception of the last call as its error; and the
  queue after the pass is the queue before it without the item taken: nothing is put back.
\<close>

theorem worker_fails_after_max_retries:
  assumes "queue s \<noteq> []"
    and "heappop (objs s) (queue s) = (Inr (p, a), h)"
    and "a < length (objs s)"
    and "retries (objs s ! a) = 0"
    and "0 < max_retries (objs s ! a)" and "max_retries (objs s ! a) \<le> 1025"
    and "\<forall>n. work (func (objs s ! a)) n = Inl (errs n)"
  shows "\<exists>s'. worker_pass work s =
            Some (s', nat (max_retries (objs s ! a)),
                  map (\<lambda>k. 2 ^ k) [0 ..< nat (max_retries (objs s ! a)) - 1])
          \<and> status (objs s' ! a) = FAILED
          \<and> error (objs s' ! a) = Some (errs (nat (max_retries (objs s ! a)) - 1))
          \<and> retries (objs s' ! a) = max_retries (objs s ! a)
          \<and> add_mset (p, a) (mset (queue s')) = mset (queue s)"
proof -
  have w: "work (func (objs s ! a)) = (\<lambda>n. Inl (errs n))"
    using assms(7) by auto
  show ?thesis
    using assms(1-6) mset_heappop [OF assms(2) assms(1)]
    by (simp add: worker_pass_def Let_def w process_task_always_fails)
qed


theorem worker_fails_after_max_retries_witness:
  "queue (snd (submit new_processor 7 0 MEDIUM)) \<noteq> []
   \<and> heappop (objs (snd (submit new_processor 7 0 MEDIUM)))
        (queue (snd (submit new_processor 7 0 MEDIUM))) = (Inr (1, 0), [])
   \<and> (0::nat) < length (objs (snd (submit new_processor 7 0 MEDIUM)))
   \<and> retries (objs (snd (submit new_processor 7 0 MEDIUM)) ! 0) = 0
   \<and> 0 < max_retries (objs (snd (submit new_processor 7 0 MEDIUM)) ! 0)
   \<and> max_retries (objs (snd (submit new_processor 7 0 MEDIUM)) ! 0) \<le> 1025
   \<and> (\<exists>s'. worker_pass (\<lambda>f n. Inl (Exc Exception (replicate n CHR ''x'') None))
              (snd (submit new_processor 7 0 MEDIUM)) = Some (s', 3, [1, 2])
          \<and> status (objs s' ! 0) = FAILED
          \<and> error (objs s' ! 0) = Some (Exc Exception ''xx'' None)
          \<and> retries (objs s' ! 0) = 3
          \<and> queue s' = [])"
proof -
  let ?s = "snd (submit new_processor 7 0 MEDIUM)"
  let ?errs = "\<lambda>n. Exc Exception (replicate n CHR ''x'') None"
  have s: "?s = \<lparr>max_workers = 5, tasks = [(7, 0)], queue = [(1, 0)],
                 objs = [new_task 7 0 MEDIUM], running = False\<rparr>"
    by code_simp
  have h1: "queue ?s \<noteq> []" by (simp add: s)
  have h2: "heappop (objs ?s) (queue ?s) = (Inr (1, 0), [])"
    by (simp add: s heappop_def)
  have h3: "0 < length (objs ?s)" by (simp add: s)
  have h4: "retries (objs ?s ! 0) = 0" by (simp add: s new_task_def)
  have h5: "0 < max_retries (objs ?s ! 0)" by (simp add: s new_task_def)
  have h6: "max_retries (objs ?s ! 0) \<le> 1025" by (simp add: s new_task_def)
  have h7: "\<forall>n. (\<lambda>f n. Inl (?errs n)) (func (objs ?s ! 0)) n = Inl (?errs n)" by simp
  have m: "max_retries (objs ?s ! 0) = 3" by (simp add: s new_task_def)
  have l: "map (\<lambda>k. (2::nat) ^ k) [0 ..< nat 3 - 1] = [1, 2]"
    by (simp add: upt_rec)
  have r: "replicate (nat 3 - 1) CHR ''x'' = ''xx''"
    by (simp add: numeral_3_eq_3)
  from worker_fails_after_max_retries [OF h1 h2 h3 h4 h5 h6 h7]
  obtain s' where
    w: "worker_pass (\<lambda>f n. Inl (?errs n)) ?s = Some (s', 3, [1, 2])"
    and st: "status (objs s' ! 0) = FAILED"
    and er: "error (objs s' ! 0) = Some (Exc Exception ''xx'' None)"
    and re: "retries (objs s' ! 0) = 3"
    and q: "add_mset (1, 0) (mset (queue s')) = mset (queue ?s)"
    unfolding m l r by (auto simp: nat_numeral)
  from q have "queue s' = []" by (simp add: s)
  with w st er re h1 h2 h3 h4 h5 h6 show ?thesis by blast
qed

text \<open>
  C3, as the claim has it, fails for the task \<open>submit\<close> creates: its \<open>max_retries\<close> is 3, and
  when every call raises, the pass makes 3 calls and sleeps twice, 1 and 2 seconds. After the
  first attempt the function is tried again twice, not three times.
\<close>

theorem default_task_retried_twice:
  "max_retries (objs (snd (submit new_processor 7 0 MEDIUM)) ! 0) = 3
   \<and> map_option snd (worker_pass failing_work (snd (submit new_processor 7 0 MEDIUM))) =
       Some (3, [1, 2])"
  by code_simp

text \<open>
  With three tasks of three different priorities the queue works as a priority queue:
  submitted as LOW, HIGH, MEDIUM, they are taken as HIGH, MEDIUM, LOW.
\<close>

lemma dequeue_by_priority_example:
  "(let s1 = snd (submit new_processor 10 0 LOW);
        s2 = snd (submit s1 11 0 HIGH);
        s3 = snd (submit s2 12 0 MEDIUM);
        (r1, h1) = heappop (objs s3) (queue s3);
        (r2, h2) = heappop (objs s3) h1;
        (r3, h3) = heappop (objs s3) h2
    in (r1, r2, r3, h3)) = (Inr (0, 1), Inr (1, 2), Inr (2, 0), [])"
  by code_simp

text \<open>
  C2. Two tasks of the same priority cannot wait in the queue together. Submitting a
  MEDIUM task to a new processor and then, before a worker has taken it, a second MEDIUM
  task: the second \<open>submit\<close> raises TypeError, because the heap compares
  \<open>(1, second task)\<close> with \<open>(1, first task)\<close> and so the two tasks with \<open><\<close>. There is no
  first-in first-out order among equal priorities: there is an exception.
\<close>

theorem submit_equal_priority_raises:
  "fst (submit (snd (submit new_processor 10 0 MEDIUM)) 11 0 MEDIUM) = Inl task_order_error"
  by code_simp

text \<open>
  The same comparison can be made by the dequeue instead. After HIGH, MEDIUM, MEDIUM (the
  third \<open>submit\<close> compares its item with the root only, and returns) the worker's
  \<open>queue.get\<close> raises; the worker logs it, and the HIGH task is no longer in the queue and
  still PENDING.
\<close>

lemma dequeue_equal_priority_raises:
  "(let s1 = snd (submit new_processor 10 0 HIGH);
        s2 = snd (submit s1 11 0 MEDIUM);
        (r3, s3) = submit s2 12 0 MEDIUM
    in (r3, heappop (objs s3) (queue s3), map_option (\<lambda>r. queue (fst r)) (worker_pass w s3),
        map_option status (get_task s3 10)))
   = (Inr 12, (Inl task_order_error, [(1, 1), (1, 2)]), Some [(1, 1), (1, 2)], Some PENDING)"
  by code_simp

section \<open>Properties of reference validation\<close>

text \<open>
  The check itself is the one the allow-list asks for: with directories that resolve, the
  loop finds a directory exactly when the target lies under one that is recursive, or is
  one that is not recursive or lies directly in it.
\<close>

lemma dir_allows_iff:
  "(\<forall>d \<in> set ds. \<exists>b. resolve w (dir_path d) = Inr b) \<Longrightarrow>
   dir_allows w target ds =
     Inr (\<exists>d \<in> set ds. \<exists>b rel. resolve w (dir_path d) = Inr b
            \<and> relative_to target b = Some rel \<and> (is_recursive d \<or> length rel \<le> 1))"
  by (induction ds) (auto split: sum.splits option.splits)

text \<open>
  For a file reference, whenever \<open>is_path_allowed\<close> returns its pair, \<open>validate_reference\<close>
  returns that pair as \<open>is_valid\<close>, which is true, and no error message.
\<close>

lemma validate_reference_file_never_invalid:
  "fst (is_path_allowed w db v) = Inr r \<Longrightarrow>
   fst (validate_reference w db FILE v) = Inr (PyTuple (fst r) (snd r), None)"
  by (cases "is_path_allowed w db v") (simp add: validate_reference_def Let_def)

text \<open>
  C8. With \<open>/app\<close> as the only allowed directory, the file reference \<open>/etc/passwd\<close> resolves
  to a path outside it, and \<open>is_path_allowed\<close> says so: \<open>(False, "Path is not within allowed
  directories: /etc/passwd")\<close>. \<open>validate_reference\<close> returns that pair as its \<open>is_valid\<close>,
  with error \<open>None\<close>: the validity is a non-empty tuple, true for every caller that tests it
  (\<open>create_fence_references\<close> keeps the reference), and there is no error.
\<close>

theorem validate_reference_accepts_path_outside:
  "validate_reference example_world [] FILE ''/etc/passwd'' =
     (Inr (PyTuple False (Some ''Path is not within allowed directories: /etc/passwd''), None),
      [\<lparr>dir_path = ''/app'', is_recursive = True\<rparr>])
   \<and> truthy (PyTuple False (Some ''Path is not within allowed directories: /etc/passwd''))"
  by (simp add: validate_reference_def is_path_allowed_def is_path_allowed_body_def
        ensure_default_directory_def example_world_def relative_to_def Let_def)

section \<open>Properties of the refresh service\<close>













text \<open>
  C5. When the refreshes run out of time, \<open>refresh_all\<close> raises a RefreshError whose message
  is \<open>Failed to refresh all blocks\<close>, whatever the blocks, their contents and the number of
  refreshes that had finished. The RefreshError with the message about the timeout and about
  refreshing the blocks one by one is raised too, but inside the outer \<open>try\<close>: it is caught
  there and is only the cause of the exception the caller gets.
\<close>

theorem refresh_all_timeout_message:
  "fst (refresh_all w st block_ids contents (Some k)) =
     Inl (Exc RefreshError ''Failed to refresh all blocks''
            (Some (Exc RefreshError
                     ''Operation timed out. Please try refreshing blocks individually.'' None)))"
  by (simp add: refresh_all_def Let_def)

end
